theory Spec2Isabelle
  imports Main "HOL-Library.FSet" "HOL-Library.Char_ord" "HOL-Library.List_Lexorder"
begin

section \<open>Include/exclude filters of pkg/util/collections\<close>

text \<open>
  A shallow embedding of \<^verbatim>\<open>pkg/util/collections/includes_excludes.go\<close>.
  Go strings are byte strings and are modelled as \<^typ>\<open>string\<close>; their order
  (\<^verbatim>\<open><\<close> on Go strings, used by \<^verbatim>\<open>sort\<close>) is the lexicographic order on bytes,
  which is the order of \<^typ>\<open>char list\<close> given by \<open>Char_ord\<close> and \<open>List_Lexorder\<close>.
\<close>

subsection \<open>String sets: \<^verbatim>\<open>sets.String\<close>\<close>

text \<open>
  \<^verbatim>\<open>sets.String\<close> (k8s.io/apimachinery) is a Go map from strings to the empty
  struct, that is a finite set of strings. \<^verbatim>\<open>Insert\<close> stores every item under its
  own key, \<^verbatim>\<open>Has\<close> looks a key up, \<^verbatim>\<open>Len\<close> is the number of keys, and
  \<^verbatim>\<open>List\<close> returns the keys sorted with \<^verbatim>\<open>sort.Sort\<close> under \<^verbatim>\<open><\<close>.
\<close>

type_synonym sets_String = "string fset"

definition sets_Insert :: "sets_String \<Rightarrow> string list \<Rightarrow> sets_String" where
  "sets_Insert s items = fold finsert items s"

definition sets_NewString :: "string list \<Rightarrow> sets_String" where
  "sets_NewString items = sets_Insert {||} items"

definition sets_Has :: "sets_String \<Rightarrow> string \<Rightarrow> bool" where
  "sets_Has s item = (item |\<in>| s)"

definition sets_Len :: "sets_String \<Rightarrow> nat" where
  "sets_Len s = fcard s"

definition sets_List :: "sets_String \<Rightarrow> string list" where
  "sets_List s = sorted_list_of_fset s"

subsection \<open>Compiled globs\<close>

text \<open>
  The glob library (github.com/gobwas/glob) is imported, not part of the package. A
  compiled glob is modelled by its \<^verbatim>\<open>Match\<close> method: \<open>g s\<close> is \<open>Some b\<close> when
  \<^verbatim>\<open>g.Match(s)\<close> returns \<open>b\<close>, and \<open>None\<close> when the call panics (the library's
  matchers can index out of range). The functions of the package that call
  \<^verbatim>\<open>glob.Compile\<close> take it as the parameter \<open>compile\<close>: \<open>compile item\<close> is
  \<open>None\<close> when \<^verbatim>\<open>glob.Compile(item)\<close> returns an error and \<open>Some g\<close> otherwise.
\<close>

type_synonym Glob = "string \<Rightarrow> bool option"

type_synonym Compiler = "string \<Rightarrow> Glob option"

subsection \<open>Glob string sets\<close>

type_synonym globStringSet = sets_String

definition newGlobStringSet :: globStringSet where
  "newGlobStringSet = sets_NewString []"

text \<open>
  The loop of \<^verbatim>\<open>match\<close> over \<^verbatim>\<open>gss.List()\<close>: the first item that does not compile
  ends the scan with false, the first item that matches ends it with true. A panic in
  \<^verbatim>\<open>g.Match\<close> leaves the function without a result: the result is \<open>None\<close>.
\<close>

fun match_loop :: "Compiler \<Rightarrow> string list \<Rightarrow> string \<Rightarrow> bool option" where
  "match_loop compile [] m = Some False"
| "match_loop compile (item # items) m =
     (case compile item of
        None \<Rightarrow> Some False
      | Some g \<Rightarrow>
          (case g m of
             None \<Rightarrow> None
           | Some matched \<Rightarrow> if matched then Some True else match_loop compile items m))"

definition match :: "Compiler \<Rightarrow> globStringSet \<Rightarrow> string \<Rightarrow> bool option" where
  "match compile gss m = match_loop compile (sets_List gss) m"

subsection \<open>IncludesExcludes\<close>

text \<open>The fields \<^verbatim>\<open>includes\<close> and \<^verbatim>\<open>excludes\<close>; \<open>includes\<close> is a keyword of Isabelle, hence the prefix.\<close>

record IncludesExcludes =
  ie_includes :: globStringSet
  ie_excludes :: globStringSet

definition NewIncludesExcludes :: IncludesExcludes where
  "NewIncludesExcludes = \<lparr>ie_includes = newGlobStringSet, ie_excludes = newGlobStringSet\<rparr>"

text \<open>The methods have pointer receivers and mutate; the model returns the new value.\<close>

definition Includes :: "IncludesExcludes \<Rightarrow> string list \<Rightarrow> IncludesExcludes" where
  "Includes ie items = ie\<lparr>ie_includes := sets_Insert (ie_includes ie) items\<rparr>"

definition GetIncludes :: "IncludesExcludes \<Rightarrow> string list" where
  "GetIncludes ie = sets_List (ie_includes ie)"

definition Excludes :: "IncludesExcludes \<Rightarrow> string list \<Rightarrow> IncludesExcludes" where
  "Excludes ie items = ie\<lparr>ie_excludes := sets_Insert (ie_excludes ie) items\<rparr>"

definition GetExcludes :: "IncludesExcludes \<Rightarrow> string list" where
  "GetExcludes ie = sets_List (ie_excludes ie)"

text \<open>
  \<^verbatim>\<open>ShouldInclude\<close>: the disjunction of the return statement is evaluated from the
  left, so the includes are scanned only when they are not empty and do not contain
  \<^verbatim>\<open>*\<close>. A panic in either scan is the result \<open>None\<close>.
\<close>

definition ShouldInclude :: "Compiler \<Rightarrow> IncludesExcludes \<Rightarrow> string \<Rightarrow> bool option" where
  "ShouldInclude compile ie s =
     (case match compile (ie_excludes ie) s of
        None \<Rightarrow> None
      | Some excluded \<Rightarrow>
          if excluded then Some False
          else if sets_Len (ie_includes ie) = 0 \<or> sets_Has (ie_includes ie) ''*'' then Some True
          else match compile (ie_includes ie) s)"

definition IncludeEverything :: "IncludesExcludes \<Rightarrow> bool" where
  "IncludeEverything ie =
     (sets_Len (ie_excludes ie) = 0
      \<and> (sets_Len (ie_includes ie) = 0
         \<or> (sets_Len (ie_includes ie) = 1 \<and> sets_Has (ie_includes ie) ''*'')))"

subsection \<open>Validation\<close>

text \<open>
  An \<^verbatim>\<open>error\<close> made by \<^verbatim>\<open>errors.New\<close> or \<^verbatim>\<open>errors.Errorf\<close> is modelled by its
  message; \<^verbatim>\<open>%v\<close> of a string is the string. A nil slice is the empty list.
\<close>

datatype error = Error string

fun overlap_loop :: "sets_String \<Rightarrow> string list \<Rightarrow> error list \<Rightarrow> error list" where
  "overlap_loop incl [] errs = errs"
| "overlap_loop incl (itm # itms) errs =
     overlap_loop incl itms
       (if sets_Has incl itm
        then errs @ [Error (''excludes list cannot contain an item in the includes list: '' @ itm)]
        else errs)"

definition ValidateIncludesExcludes :: "string list \<Rightarrow> string list \<Rightarrow> error list" where
  "ValidateIncludesExcludes includesList excludesList =
     (let errs0 = [];
          incl = sets_NewString includesList;
          excl = sets_NewString excludesList;
          errs1 = (if sets_Len incl > 1 \<and> sets_Has incl ''*''
                   then errs0 @ [Error ''includes list must either contain '*' only, or a non-empty list of items'']
                   else errs0);
          errs2 = (if sets_Has excl ''*''
                   then errs1 @ [Error (''excludes list cannot contain '*'' @ [CHR 0x27])]
                   else errs1)
      in overlap_loop incl (sets_List excl) errs2)"

subsection \<open>Generation\<close>

fun includes_loop :: "(string \<Rightarrow> string) \<Rightarrow> string list \<Rightarrow> IncludesExcludes \<Rightarrow> IncludesExcludes" where
  "includes_loop mapFunc [] res = res"
| "includes_loop mapFunc (item # items) res =
     (if item = ''*'' then includes_loop mapFunc items (Includes res [item])
      else let key = mapFunc item in
        if key = [] then includes_loop mapFunc items res
        else includes_loop mapFunc items (Includes res [key]))"

fun excludes_loop :: "(string \<Rightarrow> string) \<Rightarrow> string list \<Rightarrow> IncludesExcludes \<Rightarrow> IncludesExcludes" where
  "excludes_loop mapFunc [] res = res"
| "excludes_loop mapFunc (item # items) res =
     (if item = ''*'' then excludes_loop mapFunc items res
      else let key = mapFunc item in
        if key = [] then excludes_loop mapFunc items res
        else excludes_loop mapFunc items (Excludes res [key]))"

definition GenerateIncludesExcludes ::
  "string list \<Rightarrow> string list \<Rightarrow> (string \<Rightarrow> string) \<Rightarrow> IncludesExcludes" where
  "GenerateIncludesExcludes incl excl mapFunc =
     excludes_loop mapFunc excl (includes_loop mapFunc incl NewIncludesExcludes)"

subsection \<open>Resolving resources\<close>

text \<open>
  \<^verbatim>\<open>schema.GroupResource\<close> and \<^verbatim>\<open>schema.GroupVersionResource\<close> of
  k8s.io/apimachinery: \<^verbatim>\<open>ParseGroupResource\<close> splits at the first dot into resource
  and group, \<^verbatim>\<open>String\<close> joins them again with a dot unless the group is empty.
\<close>

record GroupResource =
  gr_Group :: string
  gr_Resource :: string

record GroupVersionResource =
  gvr_Group :: string
  gvr_Version :: string
  gvr_Resource :: string

definition ParseGroupResource :: "string \<Rightarrow> GroupResource" where
  "ParseGroupResource gr =
     (if CHR ''.'' \<in> set gr
      then \<lparr>gr_Group = tl (dropWhile (\<lambda>c. c \<noteq> CHR ''.'') gr),
            gr_Resource = takeWhile (\<lambda>c. c \<noteq> CHR ''.'') gr\<rparr>
      else \<lparr>gr_Group = [], gr_Resource = gr\<rparr>)"

definition WithVersion :: "GroupResource \<Rightarrow> string \<Rightarrow> GroupVersionResource" where
  "WithVersion gr version =
     \<lparr>gvr_Group = gr_Group gr, gvr_Version = version, gvr_Resource = gr_Resource gr\<rparr>"

definition GroupResource_of :: "GroupVersionResource \<Rightarrow> GroupResource" where
  "GroupResource_of gvr = \<lparr>gr_Group = gvr_Group gvr, gr_Resource = gvr_Resource gvr\<rparr>"

definition GroupResource_String :: "GroupResource \<Rightarrow> string" where
  "GroupResource_String gr =
     (if length (gr_Group gr) = 0 then gr_Resource gr
      else gr_Resource gr @ ''.'' @ gr_Group gr)"

text \<open>
  The discovery helper is an argument of \<^verbatim>\<open>GetResourceIncludesExcludes\<close>; only its
  method \<^verbatim>\<open>ResourceFor\<close> is called. It returns an error (\<open>Inl\<close>) or the resolved
  resource together with an API resource, which the caller ignores.
\<close>

type_synonym 'a Helper = "GroupVersionResource \<Rightarrow> error + GroupVersionResource \<times> 'a"

text \<open>The function literal passed to \<^verbatim>\<open>GenerateIncludesExcludes\<close>.\<close>

definition GetResourceIncludesExcludes_func1 :: "'a Helper \<Rightarrow> string \<Rightarrow> string" where
  "GetResourceIncludesExcludes_func1 helper item =
     (case helper (WithVersion (ParseGroupResource item) []) of
        Inl err \<Rightarrow> item
      | Inr (gvr, _) \<Rightarrow> GroupResource_String (GroupResource_of gvr))"

definition GetResourceIncludesExcludes ::
  "'a Helper \<Rightarrow> string list \<Rightarrow> string list \<Rightarrow> IncludesExcludes" where
  "GetResourceIncludesExcludes helper incl excl =
     GenerateIncludesExcludes incl excl (GetResourceIncludesExcludes_func1 helper)"

subsection \<open>Two matchers of the glob library\<close>

text \<open>
  What \<^verbatim>\<open>glob.Compile\<close> returns for the simplest patterns. For a pattern without
  special characters it is the matcher \<^verbatim>\<open>match.Text\<close>, whose \<^verbatim>\<open>Match\<close> is
  equality with the pattern. For the pattern \<^verbatim>\<open>*\<close>, compiled without separators as
  the package does, it is the matcher \<^verbatim>\<open>match.Super\<close>, whose \<^verbatim>\<open>Match\<close> is always
  true. Neither panics. A pattern that ends inside an open bracket, such as \<^verbatim>\<open>[\<close> or
  \<^verbatim>\<open>![\<close>, does not compile.

  The closed statements below give \<open>compile\<close> as a finite table of this kind
  (\<open>[p \<mapsto> g]\<close>, every other pattern does not compile) that lists, for the patterns
  of the statement, what \<^verbatim>\<open>glob.Compile\<close> returns for them.
\<close>

definition match_Text :: "string \<Rightarrow> Glob" where
  "match_Text str s = Some (str = s)"

definition match_Super :: Glob where
  "match_Super s = Some True"

subsection \<open>Notions of the specification\<close>

text \<open>
  A candidate matches a pattern, taken alone, when the pattern compiles and the compiled
  glob returns true for the candidate. The pattern returns for the candidate when it
  compiles and the compiled glob returns true or false; it panics when it compiles and
  the compiled glob panics.
\<close>

definition glob_matches :: "Compiler \<Rightarrow> string \<Rightarrow> string \<Rightarrow> bool" where
  "glob_matches compile pattern candidate =
     (case compile pattern of None \<Rightarrow> False | Some g \<Rightarrow> g candidate = Some True)"

definition glob_returns :: "Compiler \<Rightarrow> string \<Rightarrow> string \<Rightarrow> bool" where
  "glob_returns compile pattern candidate =
     (case compile pattern of None \<Rightarrow> False | Some g \<Rightarrow> g candidate \<noteq> None)"

definition glob_panics :: "Compiler \<Rightarrow> string \<Rightarrow> string \<Rightarrow> bool" where
  "glob_panics compile pattern candidate =
     (case compile pattern of None \<Rightarrow> False | Some g \<Rightarrow> g candidate = None)"

text \<open>
  A candidate matches a pattern set in scan order when it matches a pattern of the set
  and every pattern of the set that sorts before that one returns for it. The set
  panics in scan order when a pattern of the set panics and every pattern that sorts
  before that one returns false.
\<close>

definition set_matches :: "Compiler \<Rightarrow> globStringSet \<Rightarrow> string \<Rightarrow> bool" where
  "set_matches compile gss candidate =
     (\<exists>p|\<in>|gss. glob_matches compile p candidate
        \<and> (\<forall>q|\<in>|gss. q < p \<longrightarrow> glob_returns compile q candidate))"

definition set_panics :: "Compiler \<Rightarrow> globStringSet \<Rightarrow> string \<Rightarrow> bool" where
  "set_panics compile gss candidate =
     (\<exists>p|\<in>|gss. glob_panics compile p candidate
        \<and> (\<forall>q|\<in>|gss. q < p \<longrightarrow>
              glob_returns compile q candidate \<and> \<not> glob_matches compile q candidate))"

text \<open>
  The scan stops before a pattern \<open>p\<close> when some pattern of the set that sorts
  before \<open>p\<close> does not return for the candidate, because it does not compile or
  because it panics, and every pattern that sorts before that one returns false.
\<close>

definition scan_stops :: "Compiler \<Rightarrow> globStringSet \<Rightarrow> string \<Rightarrow> string \<Rightarrow> bool" where
  "scan_stops compile gss candidate p =
     (\<exists>q|\<in>|gss. q < p \<and> \<not> glob_returns compile q candidate
        \<and> (\<forall>r|\<in>|gss. r < q \<longrightarrow>
              glob_returns compile r candidate \<and> \<not> glob_matches compile r candidate))"

text \<open>A discovery helper that resolves nothing: every lookup fails.\<close>

definition failing_helper :: "unit Helper" where
  "failing_helper gvr = Inl (Error ''not found'')"

section \<open>Auxiliary facts\<close>

subsection \<open>String sets\<close>

lemma sets_Insert_eq: "sets_Insert s items = s |\<union>| fset_of_list items"
  unfolding sets_Insert_def by (induction items arbitrary: s) auto

lemma sets_NewString_eq: "sets_NewString items = fset_of_list items"
  by (simp add: sets_NewString_def sets_Insert_eq)

lemma set_sets_List: "set (sets_List s) = fset s"
  by (simp add: sets_List_def)

lemma sorted_sets_List: "sorted_wrt (<) (sets_List s)"
  by (simp add: sets_List_def sorted_list_of_fset.rep_eq)

lemma fcard_1_has: "(fcard s = Suc 0 \<and> x |\<in>| s) = (s = {|x|})"
  by (auto simp: fcard.rep_eq card_1_singleton_iff fset_eq_iff)

lemma length_filter_sets_List: "length (filter P (sets_List s)) = card ({x. P x} \<inter> fset s)"
  by (simp add: sets_List_def sorted_list_of_fset.rep_eq distinct_length_filter)

lemma count_sets_List: "count_list (sets_List s) x = (if x |\<in>| s then 1 else 0)"
proof -
  have "{z. x = z} \<inter> fset s = (if x |\<in>| s then {x} else {})" by auto
  then show ?thesis
    by (simp add: count_list_eq_length_filter length_filter_sets_List)
qed

subsection \<open>The scan of \<open>match\<close>\<close>

text \<open>
  On a strictly sorted list the scan is decided by the first pattern that does not
  return false: it answers true when that pattern matches, it panics when that pattern
  panics, and it answers false when that pattern does not compile or there is none.
\<close>

lemma match_loop_True:
  "sorted_wrt (<) xs \<Longrightarrow>
   (match_loop compile xs m = Some True) =
     (\<exists>p\<in>set xs. glob_matches compile p m
        \<and> (\<forall>q\<in>set xs. q < p \<longrightarrow> glob_returns compile q m))"
proof (induction xs)
  case Nil
  show ?case by simp
next
  case (Cons x xs)
  then have less: "\<forall>y\<in>set xs. x < y"
    and IH: "(match_loop compile xs m = Some True) =
      (\<exists>p\<in>set xs. glob_matches compile p m
         \<and> (\<forall>q\<in>set xs. q < p \<longrightarrow> glob_returns compile q m))"
    by simp_all
  show ?case
  proof (cases "compile x")
    case None
    with less show ?thesis
      by (auto simp: glob_matches_def glob_returns_def)
  next
    case (Some g)
    show ?thesis
    proof (cases "g m")
      case None
      with Some less show ?thesis
        by (auto simp: glob_matches_def glob_returns_def)
    next
      case (Some matched)
      with \<open>compile x = Some g\<close> less IH show ?thesis
        by (cases matched) (auto simp: glob_matches_def glob_returns_def)
    qed
  qed
qed

lemma match_loop_None:
  "sorted_wrt (<) xs \<Longrightarrow>
   (match_loop compile xs m = None) =
     (\<exists>p\<in>set xs. glob_panics compile p m
        \<and> (\<forall>q\<in>set xs. q < p \<longrightarrow>
              glob_returns compile q m \<and> \<not> glob_matches compile q m))"
proof (induction xs)
  case Nil
  show ?case by simp
next
  case (Cons x xs)
  then have less: "\<forall>y\<in>set xs. x < y"
    and IH: "(match_loop compile xs m = None) =
      (\<exists>p\<in>set xs. glob_panics compile p m
         \<and> (\<forall>q\<in>set xs. q < p \<longrightarrow>
               glob_returns compile q m \<and> \<not> glob_matches compile q m))"
    by simp_all
  show ?case
  proof (cases "compile x")
    case None
    with less show ?thesis
      by (auto simp: glob_matches_def glob_returns_def glob_panics_def)
  next
    case (Some g)
    show ?thesis
    proof (cases "g m")
      case None
      with Some less show ?thesis
        by (auto simp: glob_matches_def glob_returns_def glob_panics_def)
    next
      case (Some matched)
      with \<open>compile x = Some g\<close> less IH show ?thesis
        by (cases matched) (auto simp: glob_matches_def glob_returns_def glob_panics_def)
    qed
  qed
qed

lemma match_True: "(match compile gss m = Some True) = set_matches compile gss m"
  unfolding match_def set_matches_def
  by (subst match_loop_True [OF sorted_sets_List]) (auto simp: set_sets_List)

lemma match_None: "(match compile gss m = None) = set_panics compile gss m"
  unfolding match_def set_panics_def
  by (subst match_loop_None [OF sorted_sets_List]) (auto simp: set_sets_List)

lemma match_cases:
  "match compile gss m =
     (if set_matches compile gss m then Some True
      else if set_panics compile gss m then None
      else Some False)"
  using match_True [of compile gss m] match_None [of compile gss m]
  by (cases "match compile gss m") auto

lemma match_loop_False:
  "sorted_wrt (<) xs \<Longrightarrow>
   (match_loop compile xs m = Some False) =
     ((\<exists>q\<in>set xs. compile q = None
         \<and> (\<forall>r\<in>set xs. r < q \<longrightarrow> glob_returns compile r m \<and> \<not> glob_matches compile r m))
      \<or> (\<forall>q\<in>set xs. glob_returns compile q m \<and> \<not> glob_matches compile q m))"
proof (induction xs)
  case Nil
  show ?case by simp
next
  case (Cons x xs)
  then have less: "\<forall>y\<in>set xs. x < y"
    and IH: "(match_loop compile xs m = Some False) =
     ((\<exists>q\<in>set xs. compile q = None
         \<and> (\<forall>r\<in>set xs. r < q \<longrightarrow> glob_returns compile r m \<and> \<not> glob_matches compile r m))
      \<or> (\<forall>q\<in>set xs. glob_returns compile q m \<and> \<not> glob_matches compile q m))"
    by simp_all
  show ?case
  proof (cases "compile x")
    case None
    with less show ?thesis
      by (auto simp: glob_matches_def glob_returns_def)
  next
    case (Some g)
    show ?thesis
    proof (cases "g m")
      case None
      with Some less show ?thesis
        by (auto simp: glob_matches_def glob_returns_def)
    next
      case (Some matched)
      with \<open>compile x = Some g\<close> less IH show ?thesis
        by (cases matched) (auto simp: glob_matches_def glob_returns_def)
    qed
  qed
qed

lemma match_False:
  "(match compile gss m = Some False) =
     ((\<exists>q|\<in>|gss. compile q = None
         \<and> (\<forall>r|\<in>|gss. r < q \<longrightarrow> glob_returns compile r m \<and> \<not> glob_matches compile r m))
      \<or> (\<forall>q|\<in>|gss. glob_returns compile q m \<and> \<not> glob_matches compile q m))"
  unfolding match_def
  by (subst match_loop_False [OF sorted_sets_List]) (auto simp: set_sets_List)

text \<open>
  A pattern that does not compile hides what sorts after it: a pattern that the scan
  reaches and that matches or panics sorts before it.
\<close>

lemma decided_before_bad:
  assumes "b |\<in>| gss" and "compile b = None"
    and "p |\<in>| gss" and "\<forall>q|\<in>|gss. q < p \<longrightarrow> glob_returns compile q m"
    and "glob_matches compile p m \<or> glob_panics compile p m"
  shows "p < b"
proof (rule ccontr)
  assume "\<not> p < b"
  then have "p = b \<or> b < p" by auto
  with assms show False
    by (auto simp: glob_matches_def glob_returns_def glob_panics_def)
qed

lemma set_matches_before_bad:
  assumes "b |\<in>| gss" and "compile b = None"
  shows "set_matches compile gss m = set_matches compile (ffilter (\<lambda>q. q < b) gss) m"
proof
  assume "set_matches compile gss m"
  then obtain p where p: "p |\<in>| gss" "glob_matches compile p m"
    "\<forall>q|\<in>|gss. q < p \<longrightarrow> glob_returns compile q m"
    unfolding set_matches_def by blast
  with decided_before_bad [of b gss compile, OF assms] have "p < b" by blast
  with p show "set_matches compile (ffilter (\<lambda>q. q < b) gss) m"
    unfolding set_matches_def by auto
next
  assume "set_matches compile (ffilter (\<lambda>q. q < b) gss) m"
  then obtain p where p: "p |\<in>| gss" "p < b" "glob_matches compile p m"
    "\<forall>q|\<in>|gss. q < b \<longrightarrow> q < p \<longrightarrow> glob_returns compile q m"
    unfolding set_matches_def by auto
  then have "\<forall>q|\<in>|gss. q < p \<longrightarrow> glob_returns compile q m"
    by (meson less_trans)
  with p show "set_matches compile gss m"
    unfolding set_matches_def by blast
qed

lemma set_panics_before_bad:
  assumes "b |\<in>| gss" and "compile b = None"
  shows "set_panics compile gss m = set_panics compile (ffilter (\<lambda>q. q < b) gss) m"
proof
  assume "set_panics compile gss m"
  then obtain p where p: "p |\<in>| gss" "glob_panics compile p m"
    "\<forall>q|\<in>|gss. q < p \<longrightarrow> glob_returns compile q m \<and> \<not> glob_matches compile q m"
    unfolding set_panics_def by blast
  with decided_before_bad [of b gss compile, OF assms] have "p < b" by blast
  with p show "set_panics compile (ffilter (\<lambda>q. q < b) gss) m"
    unfolding set_panics_def by auto
next
  assume "set_panics compile (ffilter (\<lambda>q. q < b) gss) m"
  then obtain p where p: "p |\<in>| gss" "p < b" "glob_panics compile p m"
    "\<forall>q|\<in>|gss. q < b \<longrightarrow> q < p \<longrightarrow>
       glob_returns compile q m \<and> \<not> glob_matches compile q m"
    unfolding set_panics_def by auto
  then have "\<forall>q|\<in>|gss. q < p \<longrightarrow> glob_returns compile q m \<and> \<not> glob_matches compile q m"
    by (meson less_trans)
  with p show "set_panics compile gss m"
    unfolding set_panics_def by blast
qed

text \<open>
  A pattern that matches is reached by the scan exactly when the scan does not stop
  before it.
\<close>

lemma set_matches_at:
  assumes "p |\<in>| gss" and "glob_matches compile p c"
  shows "set_matches compile gss c = (\<not> scan_stops compile gss c p)"
proof
  assume "set_matches compile gss c"
  then obtain p' where p': "p' |\<in>| gss" "glob_matches compile p' c"
    "\<forall>q|\<in>|gss. q < p' \<longrightarrow> glob_returns compile q c"
    unfolding set_matches_def by blast
  show "\<not> scan_stops compile gss c p"
  proof
    assume "scan_stops compile gss c p"
    then obtain q where q: "q |\<in>| gss" "q < p" "\<not> glob_returns compile q c"
      "\<forall>r|\<in>|gss. r < q \<longrightarrow> glob_returns compile r c \<and> \<not> glob_matches compile r c"
      unfolding scan_stops_def by blast
    have "p' = q \<or> p' < q \<or> q < p'" by auto
    with p' q show False
      by (auto simp: glob_matches_def glob_returns_def split: option.splits)
  qed
next
  assume ns: "\<not> scan_stops compile gss c p"
  have star: "glob_returns compile p c"
    using assms(2) by (auto simp: glob_matches_def glob_returns_def split: option.splits)
  show "set_matches compile gss c"
  proof (rule ccontr)
    assume nm: "\<not> set_matches compile gss c"
    then have "match compile gss c \<noteq> Some True"
      by (simp add: match_True)
    then consider (panic) "match compile gss c = None" | (no) "match compile gss c = Some False"
      by (cases "match compile gss c") auto
    then show False
    proof cases
      case panic
      then obtain q where q: "q |\<in>| gss" "glob_panics compile q c"
        "\<forall>r|\<in>|gss. r < q \<longrightarrow> glob_returns compile r c \<and> \<not> glob_matches compile r c"
        unfolding match_None set_panics_def by blast
      from q(2) have nr: "\<not> glob_returns compile q c"
        by (auto simp: glob_panics_def glob_returns_def split: option.splits)
      have "q = p \<or> q < p \<or> p < q" by auto
      with q nr star assms ns show False
        unfolding scan_stops_def by blast
    next
      case no
      then consider (bad) q where "q |\<in>| gss" "compile q = None"
          "\<forall>r|\<in>|gss. r < q \<longrightarrow> glob_returns compile r c \<and> \<not> glob_matches compile r c"
        | (all) "\<forall>q|\<in>|gss. glob_returns compile q c \<and> \<not> glob_matches compile q c"
        unfolding match_False by blast
      then show False
      proof cases
        case bad
        from bad(2) have nr: "\<not> glob_returns compile q c"
          by (simp add: glob_returns_def)
        have "q = p \<or> q < p \<or> p < q" by auto
        with bad nr star assms ns show False
          unfolding scan_stops_def by blast
      next
        case all
        with assms show False by blast
      qed
    qed
  qed
qed

subsection \<open>Validation and generation, in closed form\<close>

lemma overlap_loop_eq:
  "overlap_loop incl itms errs =
     errs @ map (\<lambda>itm. Error (''excludes list cannot contain an item in the includes list: '' @ itm))
              (filter (sets_Has incl) itms)"
  by (induction itms arbitrary: errs) auto

lemma ValidateIncludesExcludes_length:
  "length (ValidateIncludesExcludes incl excl) =
     (if 1 < card (set incl) \<and> ''*'' \<in> set incl then 1 else 0)
     + (if ''*'' \<in> set excl then 1 else 0)
     + card (set incl \<inter> set excl)"
proof -
  have "{x. x \<in> set incl} \<inter> set excl = set incl \<inter> set excl" by auto
  then show ?thesis
    by (simp add: ValidateIncludesExcludes_def Let_def overlap_loop_eq sets_NewString_eq
          sets_Len_def sets_Has_def fcard.rep_eq fset_of_list.rep_eq fset_of_list_elem
          length_filter_sets_List)
qed

lemma includes_loop_eq:
  "includes_loop mapFunc items res =
     res\<lparr>ie_includes := ie_includes res |\<union>|
       fset_of_list (map (\<lambda>item. if item = ''*'' then ''*'' else mapFunc item)
                      (filter (\<lambda>item. item = ''*'' \<or> mapFunc item \<noteq> []) items))\<rparr>"
  by (induction items arbitrary: res) (auto simp: Includes_def sets_Insert_eq Let_def)

lemma excludes_loop_eq:
  "excludes_loop mapFunc items res =
     res\<lparr>ie_excludes := ie_excludes res |\<union>|
       fset_of_list (map mapFunc (filter (\<lambda>item. item \<noteq> ''*'' \<and> mapFunc item \<noteq> []) items))\<rparr>"
  by (induction items arbitrary: res) (auto simp: Excludes_def sets_Insert_eq Let_def)

lemma GenerateIncludesExcludes_eq:
  "GenerateIncludesExcludes incl excl mapFunc =
     \<lparr>ie_includes = fset_of_list (map (\<lambda>item. if item = ''*'' then ''*'' else mapFunc item)
                      (filter (\<lambda>item. item = ''*'' \<or> mapFunc item \<noteq> []) incl)),
      ie_excludes = fset_of_list (map mapFunc
                      (filter (\<lambda>item. item \<noteq> ''*'' \<and> mapFunc item \<noteq> []) excl))\<rparr>"
  by (simp add: GenerateIncludesExcludes_def includes_loop_eq excludes_loop_eq
        NewIncludesExcludes_def newGlobStringSet_def sets_NewString_eq)

section \<open>Properties of the specification\<close>

subsection \<open>C1: exclude wins\<close>

text \<open>
  C1, amended. For every filter and every candidate \<open>c\<close>: if \<open>c\<close> matches an
  exclude pattern and every exclude pattern that sorts before that one compiles and
  returns for \<open>c\<close>, then \<open>ShouldInclude\<close> is false, whatever the includes are.
  Otherwise, when the scan of the excludes does not panic, \<open>ShouldInclude\<close> is true
  exactly when the include set is empty, or contains the literal \<^verbatim>\<open>*\<close>, or \<open>c\<close>
  matches an include pattern and every include pattern that sorts before that one
  compiles and returns for \<open>c\<close>; when none of the three holds it is false, unless
  the scan of the includes panics. For a set whose patterns all compile and return for
  \<open>c\<close>, matching in scan order is matching any pattern of the set, as the claim has it.
\<close>

theorem ShouldInclude_exclude_wins:
  "ShouldInclude compile ie c =
     (if set_matches compile (ie_excludes ie) c then Some False
      else if set_panics compile (ie_excludes ie) c then None
      else if ie_includes ie = {||} \<or> ''*'' |\<in>| ie_includes ie
              \<or> set_matches compile (ie_includes ie) c then Some True
      else if set_panics compile (ie_includes ie) c then None
      else Some False)
   \<and> ((\<forall>p|\<in>|gss. glob_returns compile p c) \<longrightarrow>
        set_matches compile gss c = (\<exists>p|\<in>|gss. glob_matches compile p c))"
proof -
  have "ShouldInclude compile ie c =
     (if set_matches compile (ie_excludes ie) c then Some False
      else if set_panics compile (ie_excludes ie) c then None
      else if ie_includes ie = {||} \<or> ''*'' |\<in>| ie_includes ie
              \<or> set_matches compile (ie_includes ie) c then Some True
      else if set_panics compile (ie_includes ie) c then None
      else Some False)"
    by (simp add: ShouldInclude_def match_cases sets_Len_def sets_Has_def)
  moreover have "(\<forall>p|\<in>|gss. glob_returns compile p c) \<longrightarrow>
        set_matches compile gss c = (\<exists>p|\<in>|gss. glob_matches compile p c)"
    unfolding set_matches_def by blast
  ultimately show ?thesis by (rule conjI)
qed

text \<open>
  The theorem at three filters. Excludes \<^verbatim>\<open>a\<close>, \<^verbatim>\<open>b\<close> and the include \<^verbatim>\<open>[\<close>,
  which does not compile: the candidate \<^verbatim>\<open>b\<close> is excluded, after \<^verbatim>\<open>a\<close> has
  returned false for it. Includes \<^verbatim>\<open>[\<close> and \<^verbatim>\<open>*\<close>, exclude \<^verbatim>\<open>a\<close>: the
  candidate \<^verbatim>\<open>b\<close> is included. Includes \<^verbatim>\<open>a\<close>, \<^verbatim>\<open>b\<close>, exclude \<^verbatim>\<open>c\<close>: the
  candidate \<^verbatim>\<open>b\<close> is included and the candidate \<^verbatim>\<open>d\<close> is not.
\<close>

theorem ShouldInclude_exclude_wins_witness:
  "ShouldInclude [''a'' \<mapsto> match_Text ''a'', ''b'' \<mapsto> match_Text ''b'']
     \<lparr>ie_includes = {|''[''|}, ie_excludes = {|''a'', ''b''|}\<rparr> ''b'' = Some False
   \<and> ShouldInclude [''a'' \<mapsto> match_Text ''a'', ''*'' \<mapsto> match_Super]
     \<lparr>ie_includes = {|''['', ''*''|}, ie_excludes = {|''a''|}\<rparr> ''b'' = Some True
   \<and> ShouldInclude [''a'' \<mapsto> match_Text ''a'', ''b'' \<mapsto> match_Text ''b'', ''c'' \<mapsto> match_Text ''c'']
     \<lparr>ie_includes = {|''a'', ''b''|}, ie_excludes = {|''c''|}\<rparr> ''b'' = Some True
   \<and> ShouldInclude [''a'' \<mapsto> match_Text ''a'', ''b'' \<mapsto> match_Text ''b'', ''c'' \<mapsto> match_Text ''c'']
     \<lparr>ie_includes = {|''a'', ''b''|}, ie_excludes = {|''c''|}\<rparr> ''d'' = Some False"
proof -
  let ?ab = "[''a'' \<mapsto> match_Text ''a'', ''b'' \<mapsto> match_Text ''b'']"
  let ?star = "[''a'' \<mapsto> match_Text ''a'', ''*'' \<mapsto> match_Super]"
  let ?abc = "[''a'' \<mapsto> match_Text ''a'', ''b'' \<mapsto> match_Text ''b'', ''c'' \<mapsto> match_Text ''c'']"
  have excluded: "set_matches ?ab {|''a'', ''b''|} ''b''"
    by code_simp
  have star: "\<not> set_matches ?star {|''a''|} ''b''" "\<not> set_panics ?star {|''a''|} ''b''"
    by code_simp+
  have b: "\<not> set_matches ?abc {|''c''|} ''b''" "\<not> set_panics ?abc {|''c''|} ''b''"
    "set_matches ?abc {|''a'', ''b''|} ''b''"
    by code_simp+
  have d: "\<not> set_matches ?abc {|''c''|} ''d''" "\<not> set_panics ?abc {|''c''|} ''d''"
    "\<not> set_matches ?abc {|''a'', ''b''|} ''d''" "\<not> set_panics ?abc {|''a'', ''b''|} ''d''"
    by code_simp+
  have all_return: "\<forall>p|\<in>|{|''a'', ''b''|}. glob_returns ?abc p ''b''"
    by code_simp
  show ?thesis
    using excluded star b d all_return
      ShouldInclude_exclude_wins [of ?ab "\<lparr>ie_includes = {|''[''|}, ie_excludes = {|''a'', ''b''|}\<rparr>" "''b''" "{||}"]
      ShouldInclude_exclude_wins [of ?star "\<lparr>ie_includes = {|''['', ''*''|}, ie_excludes = {|''a''|}\<rparr>" "''b''" "{||}"]
      ShouldInclude_exclude_wins [of ?abc "\<lparr>ie_includes = {|''a'', ''b''|}, ie_excludes = {|''c''|}\<rparr>" "''b''" "{|''a'', ''b''|}"]
      ShouldInclude_exclude_wins [of ?abc "\<lparr>ie_includes = {|''a'', ''b''|}, ie_excludes = {|''c''|}\<rparr>" "''d''" "{||}"]
    by simp
qed

text \<open>
  C1 as stated fails: with the excludes \<^verbatim>\<open>[\<close> and \<^verbatim>\<open>a\<close> and no includes, the
  candidate \<^verbatim>\<open>a\<close> matches the exclude pattern \<^verbatim>\<open>a\<close>, yet it is included. The
  sorted scan meets \<^verbatim>\<open>[\<close> first, which does not compile, and stops.
\<close>

theorem ShouldInclude_malformed_exclude_counterexample:
  "''a'' |\<in>| ie_excludes \<lparr>ie_includes = {||}, ie_excludes = {|''['', ''a''|}\<rparr>
   \<and> glob_matches [''a'' \<mapsto> match_Text ''a''] ''a'' ''a''
   \<and> [''a'' \<mapsto> match_Text ''a''] ''['' = None
   \<and> ShouldInclude [''a'' \<mapsto> match_Text ''a'']
        \<lparr>ie_includes = {||}, ie_excludes = {|''['', ''a''|}\<rparr> ''a'' = Some True"
proof -
  have "glob_matches [''a'' \<mapsto> match_Text ''a''] ''a'' ''a''"
    by code_simp
  moreover have "ShouldInclude [''a'' \<mapsto> match_Text ''a'']
        \<lparr>ie_includes = {||}, ie_excludes = {|''['', ''a''|}\<rparr> ''a'' = Some True"
    by code_simp
  ultimately show ?thesis by simp
qed

subsection \<open>C2: a pattern that does not compile\<close>

text \<open>
  C2, amended. For every pattern set that contains a pattern \<open>b\<close> that does not
  compile, and every candidate: \<open>match\<close> returns what it returns on the patterns of
  the set that sort before \<open>b\<close>. The bad pattern is not skipped, and no pattern that
  sorts after it is consulted, a pattern equal to the candidate included. So \<open>match\<close>
  returns true exactly when a pattern that sorts before \<open>b\<close> matches the candidate
  and every pattern that sorts before that one compiles and returns; and it returns
  false when every pattern that sorts before \<open>b\<close> returns false for the candidate.
\<close>

theorem match_stops_at_malformed_pattern:
  assumes "b |\<in>| gss" and "compile b = None"
  shows "match compile gss m = match compile (ffilter (\<lambda>q. q < b) gss) m
       \<and> (match compile gss m = Some True) =
           (\<exists>p|\<in>|gss. p < b \<and> glob_matches compile p m
              \<and> (\<forall>q|\<in>|gss. q < p \<longrightarrow> glob_returns compile q m))
       \<and> ((\<forall>q|\<in>|gss. q < b \<longrightarrow> glob_returns compile q m \<and> \<not> glob_matches compile q m)
            \<longrightarrow> match compile gss m = Some False)"
proof -
  note before = decided_before_bad [of b gss compile, OF assms]
  have first: "match compile gss m = match compile (ffilter (\<lambda>q. q < b) gss) m"
    by (simp add: match_cases [of compile gss] match_cases [of compile "ffilter (\<lambda>q. q < b) gss"]
          set_matches_before_bad [of b gss compile, OF assms] set_panics_before_bad [of b gss compile, OF assms])
  have second: "(match compile gss m = Some True) =
           (\<exists>p|\<in>|gss. p < b \<and> glob_matches compile p m
              \<and> (\<forall>q|\<in>|gss. q < p \<longrightarrow> glob_returns compile q m))"
    unfolding match_True set_matches_def using before by blast
  have third: "match compile gss m = Some False"
    if r: "\<forall>q|\<in>|gss. q < b \<longrightarrow> glob_returns compile q m \<and> \<not> glob_matches compile q m"
  proof -
    have "\<not> set_matches compile gss m"
      unfolding set_matches_def using before r by blast
    moreover have "\<not> set_panics compile gss m"
    proof
      assume "set_panics compile gss m"
      then obtain p where p: "p |\<in>| gss" "glob_panics compile p m"
        "\<forall>q|\<in>|gss. q < p \<longrightarrow> glob_returns compile q m \<and> \<not> glob_matches compile q m"
        unfolding set_panics_def by blast
      with before have "p < b" by blast
      with r p(1) have "glob_returns compile p m" by blast
      with p(2) show False
        by (auto simp: glob_returns_def glob_panics_def split: option.splits)
    qed
    ultimately show ?thesis by (simp add: match_cases)
  qed
  from first second third show ?thesis by blast
qed

text \<open>
  The theorem at the set of \<^verbatim>\<open>A\<close>, \<^verbatim>\<open>[\<close> and \<^verbatim>\<open>a\<close>, sorted in this order, where
  \<^verbatim>\<open>[\<close> does not compile. For the candidate \<^verbatim>\<open>a\<close> the pattern \<^verbatim>\<open>A\<close> returns
  false and the pattern \<^verbatim>\<open>a\<close>, equal to the candidate, is never consulted: the
  answer is false. For the candidate \<^verbatim>\<open>A\<close> the answer is true.
\<close>

theorem match_stops_at_malformed_pattern_witness:
  "''['' |\<in>| {|''A'', ''['', ''a''|}
   \<and> [''A'' \<mapsto> match_Text ''A'', ''a'' \<mapsto> match_Text ''a''] ''['' = None
   \<and> glob_matches [''A'' \<mapsto> match_Text ''A'', ''a'' \<mapsto> match_Text ''a''] ''a'' ''a''
   \<and> glob_returns [''A'' \<mapsto> match_Text ''A'', ''a'' \<mapsto> match_Text ''a''] ''A'' ''a''
   \<and> match [''A'' \<mapsto> match_Text ''A'', ''a'' \<mapsto> match_Text ''a'']
        {|''A'', ''['', ''a''|} ''a'' = Some False
   \<and> match [''A'' \<mapsto> match_Text ''A'', ''a'' \<mapsto> match_Text ''a'']
        {|''A'', ''['', ''a''|} ''A'' = Some True"
proof -
  let ?T = "[''A'' \<mapsto> match_Text ''A'', ''a'' \<mapsto> match_Text ''a'']"
  have bad: "''['' |\<in>| {|''A'', ''['', ''a''|}" "?T ''['' = None"
    by simp_all
  have pats: "glob_matches ?T ''a'' ''a''" "glob_returns ?T ''A'' ''a''"
    by code_simp+
  have rejected: "\<forall>q|\<in>|{|''A'', ''['', ''a''|}. q < ''['' \<longrightarrow>
      glob_returns ?T q ''a'' \<and> \<not> glob_matches ?T q ''a''"
    by code_simp
  have hit: "\<exists>p|\<in>|{|''A'', ''['', ''a''|}. p < ''['' \<and> glob_matches ?T p ''A''
      \<and> (\<forall>q|\<in>|{|''A'', ''['', ''a''|}. q < p \<longrightarrow> glob_returns ?T q ''A'')"
    by code_simp
  from rejected match_stops_at_malformed_pattern [of "''[''" "{|''A'', ''['', ''a''|}" ?T "''a''", OF bad]
  have no: "match ?T {|''A'', ''['', ''a''|} ''a'' = Some False"
    by blast
  from hit match_stops_at_malformed_pattern [of "''[''" "{|''A'', ''['', ''a''|}" ?T "''A''", OF bad]
  have yes: "match ?T {|''A'', ''['', ''a''|} ''A'' = Some True"
    by blast
  from bad pats no yes show ?thesis
    by simp
qed

text \<open>
  C2 as stated fails: the set of \<^verbatim>\<open>A\<close> and \<^verbatim>\<open>[\<close> holds a pattern that does not
  compile, and \<open>match\<close> still answers true for the candidate \<^verbatim>\<open>A\<close>, because
  \<^verbatim>\<open>A\<close> sorts before \<^verbatim>\<open>[\<close>.
\<close>

theorem match_before_malformed_counterexample:
  "''['' |\<in>| {|''A'', ''[''|} \<and> [''A'' \<mapsto> match_Text ''A''] ''['' = None
   \<and> ''A'' |\<in>| {|''A'', ''[''|}
   \<and> match [''A'' \<mapsto> match_Text ''A''] {|''A'', ''[''|} ''A'' = Some True"
proof -
  have "match [''A'' \<mapsto> match_Text ''A''] {|''A'', ''[''|} ''A'' = Some True"
    by code_simp
  then show ?thesis by simp
qed

subsection \<open>C3: everything is included\<close>

text \<open>
  C3. \<open>IncludeEverything\<close> is true if and only if the exclude set is empty and the
  include set is empty or is exactly the set of the single element \<^verbatim>\<open>*\<close>.
\<close>

theorem IncludeEverything_iff:
  "IncludeEverything ie =
     (ie_excludes ie = {||} \<and> (ie_includes ie = {||} \<or> ie_includes ie = {|''*''|}))"
proof -
  have empty: "(sets_Len s = 0) = (s = {||})" for s
    by (simp add: sets_Len_def)
  have only_star: "(sets_Len s = 1 \<and> sets_Has s ''*'') = (s = {|''*''|})" for s
    by (simp add: sets_Len_def sets_Has_def fcard_1_has)
  show ?thesis
    unfolding IncludeEverything_def empty only_star by (rule refl)
qed

subsection \<open>C4: violations\<close>

text \<open>
  C4. \<open>ValidateIncludesExcludes\<close> returns one violation when the includes have more
  than one distinct entry and contain \<^verbatim>\<open>*\<close>, one when the excludes contain
  \<^verbatim>\<open>*\<close>, and one for every distinct item that is in both lists; nothing else. The
  three examples of the specification give one violation each, and the result is empty
  exactly when no rule is violated. The function is total: it has no failing branch.
\<close>

theorem ValidateIncludesExcludes_violations:
  "length (ValidateIncludesExcludes incl excl) =
     (if 1 < card (set incl) \<and> ''*'' \<in> set incl then 1 else 0)
     + (if ''*'' \<in> set excl then 1 else 0)
     + card (set incl \<inter> set excl)
   \<and> length (ValidateIncludesExcludes [''*'', ''a''] []) = 1
   \<and> length (ValidateIncludesExcludes [''a''] [''*'']) = 1
   \<and> length (ValidateIncludesExcludes [''a''] [''a'']) = 1
   \<and> (ValidateIncludesExcludes incl excl = []) =
       (\<not> (1 < card (set incl) \<and> ''*'' \<in> set incl) \<and> ''*'' \<notin> set excl
        \<and> set incl \<inter> set excl = {})"
proof -
  have "(ValidateIncludesExcludes incl excl = []) =
          (length (ValidateIncludesExcludes incl excl) = 0)"
    by simp
  then show ?thesis
    by (simp add: ValidateIncludesExcludes_length)
qed

subsection \<open>C5: generation\<close>

text \<open>
  C5. For all raw lists and every mapping function, the generated includes are the
  images of the raw includes, where \<^verbatim>\<open>*\<close> stands for itself and every other entry
  is mapped, without the entries mapped to the empty string; the generated excludes are
  the images of the raw excludes other than \<^verbatim>\<open>*\<close>, without the entries mapped to
  the empty string. The two examples of the specification follow.
\<close>

theorem GenerateIncludesExcludes_sets:
  "ie_includes (GenerateIncludesExcludes incl excl mapFunc) =
     fset_of_list (map (\<lambda>item. if item = ''*'' then ''*'' else mapFunc item)
                     (filter (\<lambda>item. item = ''*'' \<or> mapFunc item \<noteq> []) incl))
   \<and> ie_excludes (GenerateIncludesExcludes incl excl mapFunc) =
     fset_of_list (map mapFunc (filter (\<lambda>item. item \<noteq> ''*'' \<and> mapFunc item \<noteq> []) excl))
   \<and> GenerateIncludesExcludes [''*'', ''pods''] [''cm''] (\<lambda>item. item) =
       \<lparr>ie_includes = {|''*'', ''pods''|}, ie_excludes = {|''cm''|}\<rparr>
   \<and> ie_includes (GenerateIncludesExcludes [''x''] [] (mapFunc(''x'' := []))) = {||}"
proof -
  have closed_form:
    "ie_includes (GenerateIncludesExcludes incl excl mapFunc) =
       fset_of_list (map (\<lambda>item. if item = ''*'' then ''*'' else mapFunc item)
                       (filter (\<lambda>item. item = ''*'' \<or> mapFunc item \<noteq> []) incl))"
    "ie_excludes (GenerateIncludesExcludes incl excl mapFunc) =
       fset_of_list (map mapFunc (filter (\<lambda>item. item \<noteq> ''*'' \<and> mapFunc item \<noteq> []) excl))"
    by (simp_all add: GenerateIncludesExcludes_eq)
  have identity:
    "GenerateIncludesExcludes [''*'', ''pods''] [''cm''] (\<lambda>item. item) =
       \<lparr>ie_includes = {|''*'', ''pods''|}, ie_excludes = {|''cm''|}\<rparr>"
    by (simp add: GenerateIncludesExcludes_eq)
  have dropped: "ie_includes (GenerateIncludesExcludes [''x''] [] (mapFunc(''x'' := []))) = {||}"
    by (simp add: GenerateIncludesExcludes_eq)
  from closed_form identity dropped show ?thesis by blast
qed

text \<open>
  The theorem at the includes \<^verbatim>\<open>*\<close>, \<^verbatim>\<open>pods\<close>, \<^verbatim>\<open>x\<close> and the excludes
  \<^verbatim>\<open>cm\<close>, \<^verbatim>\<open>*\<close>, \<^verbatim>\<open>x\<close>, with a mapping that sends \<^verbatim>\<open>x\<close> to the empty
  string and keeps everything else.
\<close>

theorem GenerateIncludesExcludes_sets_witness:
  "ie_includes (GenerateIncludesExcludes [''*'', ''pods'', ''x''] [''cm'', ''*'', ''x'']
                  (\<lambda>item. if item = ''x'' then [] else item)) = {|''*'', ''pods''|}
   \<and> ie_excludes (GenerateIncludesExcludes [''*'', ''pods'', ''x''] [''cm'', ''*'', ''x'']
                  (\<lambda>item. if item = ''x'' then [] else item)) = {|''cm''|}"
  using GenerateIncludesExcludes_sets [of "[''*'', ''pods'', ''x'']" "[''cm'', ''*'', ''x'']"
      "\<lambda>item. if item = ''x'' then [] else item"]
  by simp

subsection \<open>C6: entries that do not resolve\<close>

text \<open>
  C6. The claim is that an entry for which the helper fails is kept unchanged. At the
  raw includes with the single entry \<^verbatim>\<open>""\<close> and a helper that fails, the function
  literal returns the empty string as it is, \<open>GenerateIncludesExcludes\<close> omits an
  empty key, and the generated includes are empty: the filter includes everything. The
  comment in the function literal says that returning the item as it is prevents
  exactly that. For the entry \<^verbatim>\<open>widgets\<close> the string is kept.
\<close>

theorem GetResourceIncludesExcludes_empty_entry:
  "failing_helper (WithVersion (ParseGroupResource []) []) = Inl (Error ''not found'')
   \<and> GetResourceIncludesExcludes_func1 failing_helper [] = []
   \<and> ie_includes (GetResourceIncludesExcludes failing_helper [[]] []) = {||}
   \<and> IncludeEverything (GetResourceIncludesExcludes failing_helper [[]] [])
   \<and> ie_includes (GetResourceIncludesExcludes failing_helper [''widgets''] []) = {|''widgets''|}"
proof -
  have literal: "GetResourceIncludesExcludes_func1 failing_helper item = item" for item
    by (simp add: GetResourceIncludesExcludes_func1_def failing_helper_def)
  have empty: "GetResourceIncludesExcludes failing_helper [[]] [] =
      \<lparr>ie_includes = {||}, ie_excludes = {||}\<rparr>"
    by (simp add: GetResourceIncludesExcludes_def GenerateIncludesExcludes_eq literal)
  have widgets: "ie_includes (GetResourceIncludesExcludes failing_helper [''widgets''] []) =
      {|''widgets''|}"
    by (simp add: GetResourceIncludesExcludes_def GenerateIncludesExcludes_eq literal)
  have everything: "IncludeEverything \<lparr>ie_includes = {||}, ie_excludes = {||}\<rparr>"
    by (simp add: IncludeEverything_def sets_Len_def)
  from literal empty widgets everything show ?thesis
    by (simp add: failing_helper_def)
qed

subsection \<open>C7: adding twice\<close>

text \<open>
  C7. Adding a pattern \<open>x\<close> twice gives the same filter and the same set as adding
  it once; the size is the same, and the list contains \<open>x\<close> exactly once.
\<close>

theorem Includes_idempotent:
  "Includes (Includes ie [x]) [x] = Includes ie [x]
   \<and> sets_Len (ie_includes (Includes (Includes ie [x]) [x])) =
       sets_Len (ie_includes (Includes ie [x]))
   \<and> count_list (GetIncludes (Includes (Includes ie [x]) [x])) x = 1
   \<and> sets_Insert (sets_Insert s [x]) [x] = sets_Insert s [x]
   \<and> sets_Len (sets_Insert (sets_Insert s [x]) [x]) = sets_Len (sets_Insert s [x])
   \<and> count_list (sets_List (sets_Insert (sets_Insert s [x]) [x])) x = 1"
proof -
  have twice: "sets_Insert (sets_Insert s [x]) [x] = sets_Insert s [x]" for s
    by (simp add: sets_Insert_eq)
  have once: "count_list (sets_List (sets_Insert s [x])) x = 1" for s
    by (simp add: sets_Insert_eq count_sets_List)
  have filter_twice: "Includes (Includes ie [x]) [x] = Includes ie [x]"
    by (simp add: Includes_def twice)
  have "count_list (GetIncludes (Includes ie [x])) x = 1"
    by (simp add: GetIncludes_def Includes_def once)
  with twice once filter_twice show ?thesis by simp
qed

subsection \<open>C8: the wildcard among the excludes\<close>

text \<open>
  C8, amended. If the exclude set contains \<^verbatim>\<open>*\<close> and the glob \<^verbatim>\<open>*\<close> matches the
  candidate (as the library's does for every candidate), then \<open>ShouldInclude\<close> is
  false whatever the includes are if and only if the scan of the excludes does not stop
  before \<^verbatim>\<open>*\<close>: that is, unless some exclude pattern that sorts before \<^verbatim>\<open>*\<close>
  does not compile or panics while every exclude pattern that sorts before that one
  returns false. In particular \<open>ShouldInclude\<close> is false, whatever the includes are,
  when every exclude pattern that sorts before \<^verbatim>\<open>*\<close> compiles and returns for the
  candidate.
\<close>

theorem ShouldInclude_wildcard_exclude:
  assumes "''*'' |\<in>| excl" and "glob_matches compile ''*'' c"
  shows "(\<forall>incl. ShouldInclude compile \<lparr>ie_includes = incl, ie_excludes = excl\<rparr> c = Some False)
           = (\<not> scan_stops compile excl c ''*'')
       \<and> ((\<forall>q|\<in>|excl. q < ''*'' \<longrightarrow> glob_returns compile q c) \<longrightarrow>
            (\<forall>incl. ShouldInclude compile \<lparr>ie_includes = incl, ie_excludes = excl\<rparr> c = Some False))"
proof -
  have decided: "(\<forall>incl. ShouldInclude compile \<lparr>ie_includes = incl, ie_excludes = excl\<rparr> c = Some False)
      = set_matches compile excl c"
  proof
    assume "\<forall>incl. ShouldInclude compile \<lparr>ie_includes = incl, ie_excludes = excl\<rparr> c = Some False"
    then have "ShouldInclude compile \<lparr>ie_includes = {||}, ie_excludes = excl\<rparr> c = Some False"
      by blast
    then show "set_matches compile excl c"
      by (simp add: ShouldInclude_def match_cases sets_Len_def split: if_splits)
  next
    assume "set_matches compile excl c"
    then show "\<forall>incl. ShouldInclude compile \<lparr>ie_includes = incl, ie_excludes = excl\<rparr> c = Some False"
      by (simp add: ShouldInclude_def match_cases)
  qed
  have first: "(\<forall>incl. ShouldInclude compile \<lparr>ie_includes = incl, ie_excludes = excl\<rparr> c = Some False)
           = (\<not> scan_stops compile excl c ''*'')"
    unfolding decided by (rule set_matches_at [OF assms])
  have "\<not> scan_stops compile excl c ''*''" if "\<forall>q|\<in>|excl. q < ''*'' \<longrightarrow> glob_returns compile q c"
    using that unfolding scan_stops_def by blast
  with first show ?thesis by blast
qed

text \<open>
  The theorem at the excludes \<^verbatim>\<open>!a\<close> and \<^verbatim>\<open>*\<close>: \<^verbatim>\<open>!a\<close> sorts before \<^verbatim>\<open>*\<close>,
  compiles and returns false for the candidate \<^verbatim>\<open>pods\<close>, which is excluded although
  it is an include. And at the excludes \<^verbatim>\<open>!a\<close>, \<^verbatim>\<open>!b[\<close> and \<^verbatim>\<open>*\<close>, sorted in
  this order, where \<^verbatim>\<open>!b[\<close> does not compile: the candidate \<^verbatim>\<open>!a\<close> is excluded,
  because the scan ends at \<^verbatim>\<open>!a\<close>.
\<close>

theorem ShouldInclude_wildcard_exclude_witness:
  "''!a'' < ''*''
   \<and> glob_returns [''!a'' \<mapsto> match_Text ''!a'', ''*'' \<mapsto> match_Super, ''pods'' \<mapsto> match_Text ''pods'']
        ''!a'' ''pods''
   \<and> glob_matches [''!a'' \<mapsto> match_Text ''!a'', ''*'' \<mapsto> match_Super, ''pods'' \<mapsto> match_Text ''pods'']
        ''*'' ''pods''
   \<and> ShouldInclude [''!a'' \<mapsto> match_Text ''!a'', ''*'' \<mapsto> match_Super, ''pods'' \<mapsto> match_Text ''pods'']
        \<lparr>ie_includes = {|''pods''|}, ie_excludes = {|''!a'', ''*''|}\<rparr> ''pods'' = Some False
   \<and> ShouldInclude [''!a'' \<mapsto> match_Text ''!a'', ''*'' \<mapsto> match_Super, ''pods'' \<mapsto> match_Text ''pods'']
        \<lparr>ie_includes = {||}, ie_excludes = {|''!a'', ''!b['', ''*''|}\<rparr> ''!a'' = Some False"
proof -
  let ?T = "[''!a'' \<mapsto> match_Text ''!a'', ''*'' \<mapsto> match_Super, ''pods'' \<mapsto> match_Text ''pods'']"
  have order: "''!a'' < ''*''"
    by simp
  have first: "glob_returns ?T ''!a'' ''pods''"
    by code_simp
  have star: "glob_matches ?T ''*'' ''pods''" "glob_matches ?T ''*'' ''!a''"
    by code_simp+
  have mem: "''*'' |\<in>| {|''!a'', ''*''|}" "''*'' |\<in>| {|''!a'', ''!b['', ''*''|}"
    by simp_all
  have before: "\<forall>q|\<in>|{|''!a'', ''*''|}. q < ''*'' \<longrightarrow> glob_returns ?T q ''pods''"
    by code_simp
  have reached: "\<not> scan_stops ?T {|''!a'', ''!b['', ''*''|} ''!a'' ''*''"
    by code_simp
  from before ShouldInclude_wildcard_exclude [of "{|''!a'', ''*''|}" ?T "''pods''", OF mem(1) star(1)]
  have pods: "ShouldInclude ?T \<lparr>ie_includes = {|''pods''|}, ie_excludes = {|''!a'', ''*''|}\<rparr> ''pods''
      = Some False"
    by blast
  from reached
    ShouldInclude_wildcard_exclude [of "{|''!a'', ''!b['', ''*''|}" ?T "''!a''", OF mem(2) star(2)]
  have a: "ShouldInclude ?T \<lparr>ie_includes = {||}, ie_excludes = {|''!a'', ''!b['', ''*''|}\<rparr> ''!a''
      = Some False"
    by blast
  from order first star(1) pods a show ?thesis
    by simp
qed

text \<open>
  C8 as stated fails: with the excludes \<^verbatim>\<open>![\<close> and \<^verbatim>\<open>*\<close> and no includes, the
  candidate \<^verbatim>\<open>pods\<close> is included. \<^verbatim>\<open>![\<close> sorts before \<^verbatim>\<open>*\<close> and does not
  compile, so the scan of the excludes stops before it reaches \<^verbatim>\<open>*\<close>.
\<close>

theorem ShouldInclude_wildcard_exclude_counterexample:
  "''*'' |\<in>| ie_excludes \<lparr>ie_includes = {||}, ie_excludes = {|''!['', ''*''|}\<rparr>
   \<and> [''*'' \<mapsto> match_Super] ''!['' = None
   \<and> ShouldInclude [''*'' \<mapsto> match_Super]
        \<lparr>ie_includes = {||}, ie_excludes = {|''!['', ''*''|}\<rparr> ''pods'' = Some True"
proof -
  have "ShouldInclude [''*'' \<mapsto> match_Super]
        \<lparr>ie_includes = {||}, ie_excludes = {|''!['', ''*''|}\<rparr> ''pods'' = Some True"
    by code_simp
  then show ?thesis by simp
qed

subsection \<open>C9: sorted order\<close>

text \<open>
  C9. \<open>GetIncludes\<close> and \<open>GetExcludes\<close> return the stored patterns in strictly
  increasing lexicographic order; the lists do not depend on the order in which the
  patterns were added, in one call or in two. \<open>match\<close> scans in that order: it
  answers true exactly when some pattern of the set matches the candidate and every
  pattern of the set that sorts before it compiles and returns; it panics exactly when
  some pattern of the set panics and every pattern that sorts before it returns false.
  Where no pattern of the set panics, \<open>match\<close> answers, and the answer is true exactly
  when some pattern matches and every pattern that sorts before it compiles. So a
  pattern that does not compile suppresses the matches of the patterns sorted after it
  and no others.
\<close>

theorem GetIncludes_GetExcludes_sorted:
  "sorted_wrt (<) (GetIncludes ie) \<and> set (GetIncludes ie) = fset (ie_includes ie)
   \<and> sorted_wrt (<) (GetExcludes ie) \<and> set (GetExcludes ie) = fset (ie_excludes ie)
   \<and> (set xs = set ys \<longrightarrow> GetIncludes (Includes ie xs) = GetIncludes (Includes ie ys))
   \<and> (set xs = set ys \<longrightarrow> GetExcludes (Excludes ie xs) = GetExcludes (Excludes ie ys))
   \<and> GetIncludes (Includes (Includes ie xs) ys) = GetIncludes (Includes (Includes ie ys) xs)
   \<and> GetExcludes (Excludes (Excludes ie xs) ys) = GetExcludes (Excludes (Excludes ie ys) xs)
   \<and> (match compile gss m = Some True) =
       (\<exists>p. p |\<in>| gss \<and> glob_matches compile p m
            \<and> (\<forall>q. q |\<in>| gss \<longrightarrow> q < p \<longrightarrow> glob_returns compile q m))
   \<and> (match compile gss m = None) =
       (\<exists>p. p |\<in>| gss \<and> glob_panics compile p m
            \<and> (\<forall>q. q |\<in>| gss \<longrightarrow> q < p \<longrightarrow>
                  glob_returns compile q m \<and> \<not> glob_matches compile q m))
   \<and> ((\<forall>p. p |\<in>| gss \<longrightarrow> \<not> glob_panics compile p m) \<longrightarrow>
        match compile gss m =
          Some (\<exists>p. p |\<in>| gss \<and> glob_matches compile p m
                  \<and> (\<forall>q. q |\<in>| gss \<longrightarrow> q < p \<longrightarrow> compile q \<noteq> None)))"
proof -
  have order: "set xs = set ys \<Longrightarrow> fset_of_list xs = fset_of_list ys"
    by (simp add: fset_eq_iff fset_of_list_elem)
  have comm: "fset_of_list xs |\<union>| fset_of_list ys = fset_of_list ys |\<union>| fset_of_list xs"
    by (rule sup_commute)
  have lists: "sorted_wrt (<) (GetIncludes ie) \<and> set (GetIncludes ie) = fset (ie_includes ie)
   \<and> sorted_wrt (<) (GetExcludes ie) \<and> set (GetExcludes ie) = fset (ie_excludes ie)
   \<and> (set xs = set ys \<longrightarrow> GetIncludes (Includes ie xs) = GetIncludes (Includes ie ys))
   \<and> (set xs = set ys \<longrightarrow> GetExcludes (Excludes ie xs) = GetExcludes (Excludes ie ys))
   \<and> GetIncludes (Includes (Includes ie xs) ys) = GetIncludes (Includes (Includes ie ys) xs)
   \<and> GetExcludes (Excludes (Excludes ie xs) ys) = GetExcludes (Excludes (Excludes ie ys) xs)"
    using order comm
    by (simp add: GetIncludes_def GetExcludes_def Includes_def Excludes_def
          sorted_sets_List set_sets_List sets_Insert_eq sup_assoc)
  have true: "(match compile gss m = Some True) =
       (\<exists>p. p |\<in>| gss \<and> glob_matches compile p m
            \<and> (\<forall>q. q |\<in>| gss \<longrightarrow> q < p \<longrightarrow> glob_returns compile q m))"
    unfolding match_True set_matches_def by blast
  have none: "(match compile gss m = None) =
       (\<exists>p. p |\<in>| gss \<and> glob_panics compile p m
            \<and> (\<forall>q. q |\<in>| gss \<longrightarrow> q < p \<longrightarrow>
                  glob_returns compile q m \<and> \<not> glob_matches compile q m))"
    unfolding match_None set_panics_def by blast
  have total: "match compile gss m =
          Some (\<exists>p. p |\<in>| gss \<and> glob_matches compile p m
                  \<and> (\<forall>q. q |\<in>| gss \<longrightarrow> q < p \<longrightarrow> compile q \<noteq> None))"
    if np: "\<forall>p. p |\<in>| gss \<longrightarrow> \<not> glob_panics compile p m"
  proof -
    from np have ret: "glob_returns compile q m = (compile q \<noteq> None)" if "q |\<in>| gss" for q
      using that by (auto simp: glob_returns_def glob_panics_def split: option.splits)
    from np have "match compile gss m \<noteq> None"
      unfolding none by blast
    then obtain r where r: "match compile gss m = Some r" by auto
    have "r = (\<exists>p. p |\<in>| gss \<and> glob_matches compile p m
                  \<and> (\<forall>q. q |\<in>| gss \<longrightarrow> q < p \<longrightarrow> compile q \<noteq> None))"
      using true r ret by auto
    with r show ?thesis by simp
  qed
  from lists true none total show ?thesis by blast
qed

text \<open>
  The theorem at concrete patterns: the same list for two orders of insertion, and the
  pattern \<^verbatim>\<open>[\<close>, which does not compile, suppresses the match of \<^verbatim>\<open>a\<close>, sorted
  after it, but not the match of \<^verbatim>\<open>A\<close>, sorted before it.
\<close>

theorem GetIncludes_GetExcludes_sorted_witness:
  "GetIncludes (Includes NewIncludesExcludes [''b'', ''['', ''a'']) = [''['', ''a'', ''b'']
   \<and> GetIncludes (Includes NewIncludesExcludes [''a'', ''b'', ''['']) = [''['', ''a'', ''b'']
   \<and> GetExcludes (Excludes NewIncludesExcludes [''['', ''A'']) = [''A'', ''['']
   \<and> GetExcludes (Excludes NewIncludesExcludes [''A'', ''['']) = [''A'', ''['']
   \<and> match [''A'' \<mapsto> match_Text ''A'', ''a'' \<mapsto> match_Text ''a''] {|''['', ''a''|} ''a'' = Some False
   \<and> match [''A'' \<mapsto> match_Text ''A'', ''a'' \<mapsto> match_Text ''a''] {|''['', ''A''|} ''A'' = Some True"
proof -
  let ?T = "[''A'' \<mapsto> match_Text ''A'', ''a'' \<mapsto> match_Text ''a'']"
  have l: "GetIncludes (Includes NewIncludesExcludes [''b'', ''['', ''a'']) = [''['', ''a'', ''b'']"
    "GetExcludes (Excludes NewIncludesExcludes [''['', ''A'']) = [''A'', ''['']"
    by code_simp+
  have s: "set [''b'', ''['', ''a''] = set [''a'', ''b'', ''['']"
    "set [''['', ''A''] = set [''A'', ''['']"
    by auto
  have no_panic: "\<forall>p. p |\<in>| {|''['', ''a''|} \<longrightarrow> \<not> glob_panics ?T p ''a''"
    "\<forall>p. p |\<in>| {|''['', ''A''|} \<longrightarrow> \<not> glob_panics ?T p ''A''"
    by (auto simp: glob_panics_def match_Text_def)
  have m: "match ?T {|''['', ''a''|} ''a'' = Some False"
    "match ?T {|''['', ''A''|} ''A'' = Some True"
    by code_simp+
  show ?thesis
    using l s m no_panic
      GetIncludes_GetExcludes_sorted [of NewIncludesExcludes "[''b'', ''['', ''a'']"
        "[''a'', ''b'', ''['']" ?T "{|''['', ''a''|}" "''a''"]
      GetIncludes_GetExcludes_sorted [of NewIncludesExcludes "[''['', ''A'']"
        "[''A'', ''['']" ?T "{|''['', ''A''|}" "''A''"]
    by simp
qed

subsection \<open>C10: a wildcard produced by the mapping\<close>

text \<open>
  C10. The test for \<^verbatim>\<open>*\<close> in the excludes loop looks at the raw entry: a raw
  exclude other than \<^verbatim>\<open>*\<close> that the mapping function sends to \<^verbatim>\<open>*\<close> puts
  \<^verbatim>\<open>*\<close> into the generated excludes.
\<close>

theorem GenerateIncludesExcludes_mapped_wildcard:
  assumes "item \<in> set excl" and "item \<noteq> ''*''" and "mapFunc item = ''*''"
  shows "sets_Has (ie_excludes (GenerateIncludesExcludes incl excl mapFunc)) ''*''"
  using assms
  by (auto simp: sets_Has_def GenerateIncludesExcludes_eq fset_of_list_elem
        intro!: image_eqI [where x = item])

text \<open>
  The theorem at the raw excludes \<^verbatim>\<open>x\<close> alone, which do not contain \<^verbatim>\<open>*\<close>, and
  a mapping that sends everything to \<^verbatim>\<open>*\<close>.
\<close>

theorem GenerateIncludesExcludes_mapped_wildcard_witness:
  "''*'' \<notin> set [''x'']
   \<and> sets_Has (ie_excludes (GenerateIncludesExcludes [] [''x''] (\<lambda>item. ''*''))) ''*''"
  using GenerateIncludesExcludes_mapped_wildcard [of "''x''" "[''x'']" "\<lambda>item. ''*''" "[]"]
  by simp

end
